theory Spec2Isabelle
  imports Main "HOL-Library.AList"
begin

section \<open>Data model\<close>

text \<open>
  The tap handles decoded JSON: response bodies, the records inside them and the
  contexts derived from records. A Python \<open>dict\<close> keeps its keys in insertion order,
  so an object is an association list (keys distinct for a decoded body); \<open>map_of\<close>
  is the lookup, \<open>AList.update\<close> is \<open>d[k] = v\<close> (an existing key keeps its place, a new
  one goes last) and \<open>AList.delete\<close> removes a key. Numbers are integers: nothing in
  the tap computes with them.
\<close>

datatype json =
    JNull
  | JBool bool
  | JNum int
  | JStr string
  | JArr "json list"
  | JObj "(string \<times> json) list"

type_synonym dict = "(string \<times> json) list"

text \<open>The exceptions the modelled code can raise.\<close>

datatype error =
    KeyError string
  | TypeError
  | ValueError
  | AttributeError
  | RuntimeError

text \<open>
  A generator that is run to its end has yielded some items, in order, and then either
  returned (\<open>None\<close>) or raised (\<open>Some e\<close>). Whatever was yielded before a raise has
  already been emitted.
\<close>

type_synonym 'a gen = "'a list \<times> error option"

definition yield :: "'a \<Rightarrow> 'a gen" where
  "yield x = ([x], None)"

definition skip :: "'a gen" where
  "skip = ([], None)"

definition raise :: "error \<Rightarrow> 'a gen" where
  "raise e = ([], Some e)"

text \<open>Running \<open>g\<close> and then, unless it raised, \<open>h\<close>.\<close>

definition seq_gen :: "'a gen \<Rightarrow> 'a gen \<Rightarrow> 'a gen" where
  "seq_gen g h = (case snd g of Some e \<Rightarrow> g | None \<Rightarrow> (fst g @ fst h, snd h))"

section \<open>client.py\<close>

definition PAGE_SIZE :: int where
  "PAGE_SIZE = 1000"

subsection \<open>Python operations on decoded JSON\<close>

text \<open>\<open>obj[key]\<close> with a string key: only a dict can be subscripted by a string.\<close>

definition subscript :: "json \<Rightarrow> string \<Rightarrow> error + json" where
  "subscript obj k =
     (case obj of
        JObj d \<Rightarrow> (case map_of d k of None \<Rightarrow> Inl (KeyError k) | Some v \<Rightarrow> Inr v)
      | _ \<Rightarrow> Inl TypeError)"

text \<open>\<open>len(v)\<close>: lists, strings and dicts have a length, the other values do not.\<close>

definition len :: "json \<Rightarrow> error + nat" where
  "len v =
     (case v of
        JArr xs \<Rightarrow> Inr (length xs)
      | JStr s \<Rightarrow> Inr (length s)
      | JObj d \<Rightarrow> Inr (length (remdups (map fst d)))
      | _ \<Rightarrow> Inl TypeError)"

subsection \<open>MailchimpStream.post_process\<close>

text \<open>
  \<^verbatim>\<open>row = {k: None if v == "" else v for k, v in row.items()}\<close>
  Only the string \<open>""\<close> compares equal to \<open>""\<close>.
\<close>

definition post_process :: "dict \<Rightarrow> dict" where
  "post_process row = map (\<lambda>(k, v). (k, if v = JStr [] then JNull else v)) row"

subsection \<open>MailchimpPaginator\<close>

text \<open>
  The paginator object. \<open>MailchimpPaginator.__init__\<close> stores the response key and
  calls the offset paginator's constructor with \<open>start_value=0\<close> and
  \<open>page_size=PAGE_SIZE\<close>; the SDK base class keeps the current offset and the
  \<open>finished\<close> flag.
\<close>

record paginator =
  paginator_response_key :: string
  current_value :: int
  paginator_page_size :: int
  finished :: bool

definition MailchimpPaginator :: "string \<Rightarrow> paginator" where
  "MailchimpPaginator key =
     \<lparr>paginator_response_key = key, current_value = 0,
      paginator_page_size = PAGE_SIZE, finished = False\<rparr>"

text \<open>
  \<^verbatim>\<open>return len(response.json()[self.response_key])\<close>
  The result is an integer, read as a truth value by the caller.
\<close>

definition has_more :: "paginator \<Rightarrow> json \<Rightarrow> error + nat" where
  "has_more p response =
     (case subscript response (paginator_response_key p) of
        Inl e \<Rightarrow> Inl e
      | Inr v \<Rightarrow> len v)"

text \<open>
  The part of the singer-sdk base classes that drives the paginator (library code, not
  part of the tap): \<open>BaseOffsetPaginator.get_next\<close> adds the page size to the current
  offset, and \<open>BaseAPIPaginator.advance\<close> finishes when \<open>has_more\<close> is false, raises
  when the next value repeats the current one, finishes when the next value is falsy,
  and otherwise stores it.
\<close>

definition get_next :: "paginator \<Rightarrow> json \<Rightarrow> int" where
  "get_next p response = current_value p + paginator_page_size p"

definition advance :: "paginator \<Rightarrow> json \<Rightarrow> error + paginator" where
  "advance p response =
     (case has_more p response of
        Inl e \<Rightarrow> Inl e
      | Inr n \<Rightarrow>
          if n = 0 then Inr (p\<lparr>finished := True\<rparr>)
          else
            (let new_value = get_next p response in
               if new_value \<noteq> 0 \<and> new_value = current_value p then Inl RuntimeError
               else if new_value = 0 then Inr (p\<lparr>finished := True\<rparr>)
               else Inr (p\<lparr>current_value := new_value\<rparr>)))"

text \<open>
  The request loop of the SDK (\<open>while not paginator.finished\<close>: request the page at
  \<open>paginator.current_value\<close>, then \<open>paginator.advance(resp)\<close>), run against the
  responses the server gives, in order. The result is the list of offsets requested
  and how the loop ended: the paginator finished, an exception left the loop, or the
  loop is still waiting for a response the list does not hold.
\<close>

datatype ending = Finished | Raised error | Waiting

fun request_offsets :: "paginator \<Rightarrow> json list \<Rightarrow> int list \<times> ending" where
  "request_offsets p [] = ([], if finished p then Finished else Waiting)"
| "request_offsets p (resp # rest) =
     (if finished p then ([], Finished)
      else
        (case advance p resp of
           Inl e \<Rightarrow> ([current_value p], Raised e)
         | Inr p' \<Rightarrow>
             (current_value p # fst (request_offsets p' rest),
              snd (request_offsets p' rest))))"

subsection \<open>MailchimpStream.get_url_params\<close>

text \<open>The five stream classes of \<open>streams.py\<close> and their class attributes.\<close>

datatype stream =
    CampaignsStream
  | ReportsEmailActivity
  | ListsStream
  | ListsMembersStream
  | ReportsUnsubscribes

fun path :: "stream \<Rightarrow> string" where
  "path CampaignsStream = ''/campaigns''"
| "path ReportsEmailActivity = ''/reports/{campaign_id}/email-activity''"
| "path ListsStream = ''/lists''"
| "path ListsMembersStream = ''/lists/{list_id}/members''"
| "path ReportsUnsubscribes = ''/reports/{campaign_id}/unsubscribed''"

fun response_key :: "stream \<Rightarrow> string" where
  "response_key CampaignsStream = ''campaigns''"
| "response_key ReportsEmailActivity = ''emails''"
| "response_key ListsStream = ''lists''"
| "response_key ListsMembersStream = ''members''"
| "response_key ReportsUnsubscribes = ''unsubscribes''"

text \<open>\<open>exclude_fields\<close>: the base class's list unless the stream class overrides it.\<close>

fun exclude_fields :: "stream \<Rightarrow> string list" where
  "exclude_fields ListsMembersStream = [''_links'', ''merge_fields'', ''location'']"
| "exclude_fields s = [''_links'']"

fun replication_key :: "stream \<Rightarrow> string option" where
  "replication_key ReportsEmailActivity = Some ''timestamp''"
| "replication_key ListsMembersStream = Some ''last_changed''"
| "replication_key ReportsUnsubscribes = Some ''timestamp''"
| "replication_key s = None"

definition page_size :: "stream \<Rightarrow> int" where
  "page_size s = PAGE_SIZE"

definition get_new_paginator :: "stream \<Rightarrow> paginator" where
  "get_new_paginator s = MailchimpPaginator (response_key s)"

text \<open>
  A \<open>datetime\<close> is timezone-aware (a point in time, here the seconds since the epoch)
  or naive (a wall-clock reading with no offset, counted the same way). Python orders
  two aware values and two naive values; \<open>a >= b\<close> on one of each raises
  \<open>TypeError\<close>.
\<close>

datatype datetime = Aware int | Naive int

fun ge_datetime :: "datetime \<Rightarrow> datetime \<Rightarrow> error + bool" where
  "ge_datetime (Aware a) (Aware b) = Inr (a \<ge> b)"
| "ge_datetime (Naive a) (Naive b) = Inr (a \<ge> b)"
| "ge_datetime (Aware a) (Naive b) = Inl TypeError"
| "ge_datetime (Naive a) (Aware b) = Inl TypeError"

text \<open>
  A context is a dict or \<open>None\<close>. The SDK's \<open>get_starting_timestamp\<close>, which gives
  the starting replication value of a context as a \<open>datetime\<close>, or \<open>None\<close>, is a
  parameter.
\<close>

type_synonym stream_context = "dict option"

type_synonym starting = "stream_context \<Rightarrow> datetime option"

text \<open>The values a query parameter takes: an integer, a string, or a starting timestamp.\<close>

datatype param = PInt int | PStr string | PTime "datetime option"

type_synonym params = "(string \<times> param) list"

text \<open>\<open>sep.join(xs)\<close>\<close>

fun join :: "string \<Rightarrow> string list \<Rightarrow> string" where
  "join sep [] = []"
| "join sep [x] = x"
| "join sep (x # y # ys) = x @ sep @ join sep (y # ys)"

text \<open>
  The base method. The token is \<open>None\<close> or the paginator's integer; \<open>if next_page_token\<close>
  holds for a non-zero integer only.
\<close>

definition MailchimpStream_get_url_params :: "stream \<Rightarrow> stream_context \<Rightarrow> int option \<Rightarrow> params" where
  "MailchimpStream_get_url_params s ctx next_page_token =
     (let params0 = [];
          params1 =
            (case next_page_token of
               None \<Rightarrow> params0
             | Some tok \<Rightarrow>
                 if tok \<noteq> 0 then AList.update ''offset'' (PInt tok) params0 else params0);
          params2 =
            (if exclude_fields s \<noteq> [] then
               AList.update ''exclude_fields''
                 (PStr (join '','' (map (\<lambda>fname. response_key s @ ''.'' @ fname)
                                      (exclude_fields s))))
                 params1
             else params1)
      in AList.update ''count'' (PInt (page_size s)) params2)"

section \<open>streams.py\<close>

text \<open>
  \<open>get_url_params\<close> as each stream class has it: the three classes with a replication
  key call the base method and add their filter; the two others inherit it.
\<close>

fun get_url_params :: "starting \<Rightarrow> stream \<Rightarrow> stream_context \<Rightarrow> int option \<Rightarrow> params" where
  "get_url_params get_starting_timestamp ReportsEmailActivity ctx next_page_token =
     AList.update ''since'' (PTime (get_starting_timestamp ctx))
       (MailchimpStream_get_url_params ReportsEmailActivity ctx next_page_token)"
| "get_url_params get_starting_timestamp ListsMembersStream ctx next_page_token =
     AList.update ''since_last_changed'' (PTime (get_starting_timestamp ctx))
       (MailchimpStream_get_url_params ListsMembersStream ctx next_page_token)"
| "get_url_params get_starting_timestamp ReportsUnsubscribes ctx next_page_token =
     AList.update ''since'' (PTime (get_starting_timestamp ctx))
       (MailchimpStream_get_url_params ReportsUnsubscribes ctx next_page_token)"
| "get_url_params get_starting_timestamp s ctx next_page_token =
     MailchimpStream_get_url_params s ctx next_page_token"

subsection \<open>CampaignsStream and ListsStream: child contexts\<close>

text \<open>
  \<^verbatim>\<open>return {'campaign_id': record['id']}\<close>
  A record without \<open>id\<close> raises \<open>KeyError\<close>.
\<close>

definition CampaignsStream_get_child_context :: "dict \<Rightarrow> stream_context \<Rightarrow> error + dict" where
  "CampaignsStream_get_child_context record ctx =
     (case map_of record ''id'' of
        None \<Rightarrow> Inl (KeyError ''id'')
      | Some v \<Rightarrow> Inr [(''campaign_id'', v)])"

definition ListsStream_get_child_context :: "dict \<Rightarrow> stream_context \<Rightarrow> error + dict" where
  "ListsStream_get_child_context record ctx =
     (case map_of record ''id'' of
        None \<Rightarrow> Inl (KeyError ''id'')
      | Some v \<Rightarrow> Inr [(''list_id'', v)])"

text \<open>
  \<open>s.replace(old, new)\<close> for a non-empty \<open>old\<close>: every occurrence, from the left,
  without overlap.
\<close>

function replace :: "string \<Rightarrow> string \<Rightarrow> string \<Rightarrow> string" where
  "replace old new [] = []"
| "replace old new (c # cs) =
     (if old \<noteq> [] \<and> take (length old) (c # cs) = old
      then new @ replace old new (drop (length old) (c # cs))
      else c # replace old new cs)"
  by pat_completeness auto
termination
  by (relation "measure (\<lambda>(old, new, s). length s)") auto

text \<open>\<open>str(n)\<close> of an integer: its decimal digits, with a sign when negative.\<close>

function digits :: "nat \<Rightarrow> string" where
  "digits n =
     (if n < 10 then [''0123456789'' ! n]
      else digits (n div 10) @ [''0123456789'' ! (n mod 10)])"
  by pat_completeness auto
termination
  by (relation "measure (\<lambda>n. n)") auto

definition str_int :: "int \<Rightarrow> string" where
  "str_int n = (if n < 0 then ''-'' @ digits (nat (- n)) else digits (nat n))"

text \<open>
  Modelled from the spec: the text of a context value. The spec's Context maps key
  names to "string/scalar values": a string stands for itself, the other scalars for
  what \<open>str\<close> gives; lists and dicts are not values of a Context.
\<close>

fun scalar_text :: "json \<Rightarrow> string option" where
  "scalar_text (JStr s) = Some s"
| "scalar_text (JNum n) = Some (str_int n)"
| "scalar_text (JBool b) = Some (if b then ''True'' else ''False'')"
| "scalar_text JNull = Some ''None''"
| "scalar_text (JArr xs) = None"
| "scalar_text (JObj d) = None"

text \<open>
  Modelled from the spec: the substitution of context values into the path template
  ("Substitute \<open>context\<close> values into the path template", "Path placeholders filled
  from Context") is done by the SDK's \<open>RESTStream.get_url\<close>, which is not among the
  tap's files. For each key of the context in turn, every \<open>{key}\<close> in the template is
  replaced by the text of the value bound to it. There is no result for a context
  that holds a list or a dict.
\<close>

fun fill_placeholders :: "string \<Rightarrow> dict \<Rightarrow> string option" where
  "fill_placeholders url [] = Some url"
| "fill_placeholders url ((k, v) # vals) =
     (case scalar_text v of
        None \<Rightarrow> None
      | Some s \<Rightarrow> fill_placeholders (replace (''{'' @ k @ ''}'') s url) vals)"

subsection \<open>ReportsEmailActivity.get_records\<close>

text \<open>\<open>d.pop(key)\<close> with no default: the value and the dict without the key.\<close>

definition pop :: "dict \<Rightarrow> string \<Rightarrow> error + (json \<times> dict)" where
  "pop d k =
     (case map_of d k of
        None \<Rightarrow> Inl (KeyError k)
      | Some v \<Rightarrow> Inr (v, AList.delete k d))"

text \<open>
  \<open>{**a, **b}\<close>: the entries of \<open>a\<close>, then those of \<open>b\<close> written over them from left
  to right.
\<close>

definition merge :: "dict \<Rightarrow> dict \<Rightarrow> dict" where
  "merge a b = fold (\<lambda>(k, v). AList.update k v) b a"

text \<open>
  What \<open>for x in v\<close> iterates over: the items of a list, the characters of a string,
  the keys of a dict; the other values are not iterable.
\<close>

definition iterate :: "json \<Rightarrow> error + json list" where
  "iterate v =
     (case v of
        JArr xs \<Rightarrow> Inr xs
      | JStr s \<Rightarrow> Inr (map (\<lambda>c. JStr [c]) s)
      | JObj d \<Rightarrow> Inr (map JStr (remdups (map fst d)))
      | _ \<Rightarrow> Inl TypeError)"

text \<open>
  The inner loop,
  \<^verbatim>\<open>for activity in activities: yield {**transformed_record, **activity}\<close>
  where \<open>**activity\<close> needs a mapping.
\<close>

fun expand :: "dict \<Rightarrow> json list \<Rightarrow> json gen" where
  "expand transformed_record [] = skip"
| "expand transformed_record (activity # rest) =
     seq_gen
       (case activity of
          JObj a \<Rightarrow> yield (JObj (merge transformed_record a))
        | _ \<Rightarrow> raise TypeError)
       (expand transformed_record rest)"

text \<open>
  The body of the outer loop for one record of \<open>request_records\<close>: \<open>post_process\<close>
  (which calls \<open>row.items()\<close>, so the record has to be a dict), the unconditional
  \<open>pop('activity')\<close>, then the inner loop.
\<close>

definition expand_record :: "json \<Rightarrow> json gen" where
  "expand_record record =
     (case record of
        JObj row \<Rightarrow>
          (let transformed_record = post_process row in
             case pop transformed_record ''activity'' of
               Inl e \<Rightarrow> raise e
             | Inr (activities, remaining) \<Rightarrow>
                 (case iterate activities of
                    Inl e \<Rightarrow> raise e
                  | Inr items \<Rightarrow> expand remaining items))
      | _ \<Rightarrow> raise AttributeError)"

text \<open>The generator, over the records that \<open>request_records\<close> yields.\<close>

fun ReportsEmailActivity_get_records :: "json list \<Rightarrow> json gen" where
  "ReportsEmailActivity_get_records [] = skip"
| "ReportsEmailActivity_get_records (record # rest) =
     seq_gen (expand_record record) (ReportsEmailActivity_get_records rest)"

subsection \<open>ReportsUnsubscribes.get_records\<close>

text \<open>
  \<open>isoparse(record['timestamp'])\<close>. \<open>dateutil\<close>'s parser is a parameter: it gives the
  \<open>datetime\<close> a string denotes (aware when the string carries an offset, naive when
  it does not), or nothing where it raises \<open>ValueError\<close>. It takes strings only.
\<close>

definition parse_timestamp :: "(string \<Rightarrow> datetime option) \<Rightarrow> dict \<Rightarrow> error + datetime" where
  "parse_timestamp isoparse record =
     (case map_of record ''timestamp'' of
        None \<Rightarrow> Inl (KeyError ''timestamp'')
      | Some (JStr s) \<Rightarrow> (case isoparse s of None \<Rightarrow> Inl ValueError | Some t \<Rightarrow> Inr t)
      | Some _ \<Rightarrow> Inl TypeError)"

text \<open>
  The body of the loop for one record:
  \<^verbatim>\<open>transformed_record = self.post_process(record, context)\<close>
  \<^verbatim>\<open>if isoparse(record['timestamp']) >= self.get_starting_timestamp(context):\<close>
  \<^verbatim>\<open>    yield record\<close>
  The comparison raises \<open>TypeError\<close> when the starting timestamp is \<open>None\<close>, and
  when one of the two \<open>datetime\<close>s is aware and the other naive. What is yielded is
  \<open>record\<close>, not \<open>transformed_record\<close>.
\<close>

definition filter_record ::
  "(string \<Rightarrow> datetime option) \<Rightarrow> starting \<Rightarrow> stream_context \<Rightarrow> json \<Rightarrow> json gen" where
  "filter_record isoparse get_starting_timestamp ctx record =
     (case record of
        JObj row \<Rightarrow>
          (let transformed_record = post_process row in
             case parse_timestamp isoparse row of
               Inl e \<Rightarrow> raise e
             | Inr t \<Rightarrow>
                 (case get_starting_timestamp ctx of
                    None \<Rightarrow> raise TypeError
                  | Some start \<Rightarrow>
                      (case ge_datetime t start of
                         Inl e \<Rightarrow> raise e
                       | Inr b \<Rightarrow> if b then yield record else skip)))
      | _ \<Rightarrow> raise AttributeError)"

fun ReportsUnsubscribes_get_records ::
  "(string \<Rightarrow> datetime option) \<Rightarrow> starting \<Rightarrow> stream_context \<Rightarrow> json list \<Rightarrow> json gen" where
  "ReportsUnsubscribes_get_records isoparse get_starting_timestamp ctx [] = skip"
| "ReportsUnsubscribes_get_records isoparse get_starting_timestamp ctx (record # rest) =
     seq_gen (filter_record isoparse get_starting_timestamp ctx record)
       (ReportsUnsubscribes_get_records isoparse get_starting_timestamp ctx rest)"

text \<open>
  The timestamps of the filtering example, as \<open>isoparse\<close> reads them. The bare dates
  \<open>2023-01-09\<close> and \<open>2023-01-11\<close> give naive \<open>datetime\<close>s at midnight; with the
  offset \<open>+00:00\<close> the strings give aware ones, midnight UTC of 9, 10 and 11 January
  2023 being 1673222400, 1673308800 and 1673395200 seconds after the epoch.
\<close>

definition isoparse_sample :: "string \<Rightarrow> datetime option" where
  "isoparse_sample s =
     (if s = ''2023-01-09'' then Some (Naive 1673222400)
      else if s = ''2023-01-11'' then Some (Naive 1673395200)
      else if s = ''2023-01-09T00:00:00+00:00'' then Some (Aware 1673222400)
      else if s = ''2023-01-10T00:00:00+00:00'' then Some (Aware 1673308800)
      else if s = ''2023-01-11T00:00:00+00:00'' then Some (Aware 1673395200)
      else None)"

section \<open>Generators\<close>

lemma seq_gen_skip [simp]: "seq_gen skip g = g" "seq_gen g skip = g"
  by (cases g; simp add: seq_gen_def skip_def split: option.splits)+

lemma seq_gen_yield: "seq_gen (yield x) (xs, st) = (x # xs, st)"
  by (simp add: seq_gen_def yield_def)

lemma seq_gen_raise: "seq_gen (raise e) g = raise e"
  by (simp add: seq_gen_def raise_def)

lemma seq_gen_returned: "seq_gen (xs, None) (ys, st) = (xs @ ys, st)"
  by (simp add: seq_gen_def)

lemma seq_gen_assoc: "seq_gen (seq_gen f g) h = seq_gen f (seq_gen g h)"
  by (cases f; cases g; cases h) (simp add: seq_gen_def split: option.splits)

section \<open>Null coercion\<close>

lemma post_process_keys: "map fst (post_process row) = map fst row"
  by (induction row) (auto simp: post_process_def)

lemma post_process_lookup:
  "map_of (post_process row) k =
     map_option (\<lambda>v. if v = JStr [] then JNull else v) (map_of row k)"
  unfolding post_process_def by (simp only: map_of_map comp_apply)

lemma post_process_idem: "post_process (post_process row) = post_process row"
  by (induction row) (auto simp: post_process_def)

text \<open>
  C4. Null coercion is idempotent; \<open>{"last_changed": ""}\<close> becomes
  \<open>{"last_changed": null}\<close>; the keys and their order are kept; a top-level value that
  is the empty string becomes null and every other value, nested structures included,
  is returned as it is.
\<close>

theorem C4_null_coercion:
  "post_process (post_process row) = post_process row
   \<and> post_process [(''last_changed'', JStr '''')] = [(''last_changed'', JNull)]
   \<and> map fst (post_process row) = map fst row
   \<and> (map_of row k = Some (JStr '''') \<longrightarrow> map_of (post_process row) k = Some JNull)
   \<and> (map_of row k = Some v \<and> v \<noteq> JStr '''' \<longrightarrow> map_of (post_process row) k = Some v)
   \<and> (map_of row k = None \<longrightarrow> map_of (post_process row) k = None)"
proof -
  have ex: "post_process [(''last_changed'', JStr '''')] = [(''last_changed'', JNull)]"
    by (simp add: post_process_def)
  show ?thesis
    by (simp add: post_process_idem post_process_keys post_process_lookup ex)
qed

theorem C4_null_coercion_witness:
  "post_process
     [(''email'', JStr ''a@b.c''), (''last_changed'', JStr ''''),
      (''stats'', JObj [(''note'', JStr '''')])]
   = [(''email'', JStr ''a@b.c''), (''last_changed'', JNull),
      (''stats'', JObj [(''note'', JStr '''')])]
   \<and> map_of (post_process
        [(''email'', JStr ''a@b.c''), (''last_changed'', JStr ''''),
         (''stats'', JObj [(''note'', JStr '''')])]) ''last_changed'' = Some JNull
   \<and> map_of (post_process
        [(''email'', JStr ''a@b.c''), (''last_changed'', JStr ''''),
         (''stats'', JObj [(''note'', JStr '''')])]) ''stats''
       = Some (JObj [(''note'', JStr '''')])"
  using C4_null_coercion
    [of "[(''email'', JStr ''a@b.c''), (''last_changed'', JStr ''''),
          (''stats'', JObj [(''note'', JStr '''')])]"
        "''stats''" "JObj [(''note'', JStr '''')]"]
  by (simp add: post_process_def)

section \<open>Pagination\<close>

lemma advance_nonempty:
  assumes "subscript resp (paginator_response_key p) = Inr (JArr (x # xs))"
    and "paginator_page_size p = PAGE_SIZE" and "0 \<le> current_value p"
  shows "advance p resp = Inr (p\<lparr>current_value := current_value p + 1000\<rparr>)"
  using assms by (simp add: advance_def has_more_def len_def get_next_def PAGE_SIZE_def Let_def)

lemma advance_empty:
  assumes "subscript resp (paginator_response_key p) = Inr (JArr [])"
  shows "advance p resp = Inr (p\<lparr>finished := True\<rparr>)"
  using assms by (simp add: advance_def has_more_def len_def)

lemma offsets_shift:
  "map (\<lambda>i. c + 1000 * int i) [0..<Suc n]
     = c # map (\<lambda>i. (c + 1000) + 1000 * int i) [0..<n]"
proof -
  have "[0..<Suc n] = 0 # map Suc [0..<n]"
    by (simp add: upt_conv_Cons map_Suc_upt del: upt_Suc)
  then show ?thesis by (simp add: algebra_simps del: upt_Suc)
qed

lemma request_offsets_pending:
  assumes "\<forall>r\<in>set pre. \<exists>x xs. subscript r (paginator_response_key p) = Inr (JArr (x # xs))"
    and "\<not> finished p" and "paginator_page_size p = PAGE_SIZE" and "0 \<le> current_value p"
  shows "request_offsets p pre
           = (map (\<lambda>i. current_value p + 1000 * int i) [0..<length pre], Waiting)"
  using assms
proof (induction pre arbitrary: p)
  case Nil
  then show ?case by simp
next
  case (Cons r pre)
  from Cons.prems(1) obtain x xs
    where r: "subscript r (paginator_response_key p) = Inr (JArr (x # xs))" by auto
  let ?p = "p\<lparr>current_value := current_value p + 1000\<rparr>"
  have adv: "advance p r = Inr ?p"
    using r Cons.prems(3,4) by (rule advance_nonempty)
  have "request_offsets ?p pre
          = (map (\<lambda>i. current_value ?p + 1000 * int i) [0..<length pre], Waiting)"
    using Cons.prems by (intro Cons.IH) auto
  then show ?case
    using Cons.prems(2) adv by (simp add: offsets_shift del: upt_Suc)
qed

lemma request_offsets_run:
  assumes "\<forall>r\<in>set pre. \<exists>x xs. subscript r (paginator_response_key p) = Inr (JArr (x # xs))"
    and "subscript lst (paginator_response_key p) = Inr (JArr [])"
    and "\<not> finished p" and "paginator_page_size p = PAGE_SIZE" and "0 \<le> current_value p"
  shows "request_offsets p (pre @ lst # later)
           = (map (\<lambda>i. current_value p + 1000 * int i) [0..<Suc (length pre)], Finished)"
  using assms
proof (induction pre arbitrary: p)
  case Nil
  have "advance p lst = Inr (p\<lparr>finished := True\<rparr>)"
    using Nil.prems(2) by (rule advance_empty)
  then show ?case using Nil.prems(3) by (cases later) simp_all
next
  case (Cons r pre)
  from Cons.prems(1) obtain x xs
    where r: "subscript r (paginator_response_key p) = Inr (JArr (x # xs))" by auto
  let ?p = "p\<lparr>current_value := current_value p + 1000\<rparr>"
  have adv: "advance p r = Inr ?p"
    using r Cons.prems(4,5) by (rule advance_nonempty)
  have "request_offsets ?p (pre @ lst # later)
          = (map (\<lambda>i. current_value ?p + 1000 * int i) [0..<Suc (length pre)], Finished)"
    using Cons.prems by (intro Cons.IH) auto
  then show ?case
    using Cons.prems(3) adv offsets_shift [of "current_value p" "Suc (length pre)"]
    by (simp del: upt_Suc)
qed

lemma has_more_ignores_next_page:
  assumes "paginator_response_key p \<noteq> ''next_page''"
  shows "has_more p (JObj (AList.update ''next_page'' v d)) = has_more p (JObj d)"
  using assms by (simp add: has_more_def subscript_def update_conv')

text \<open>
  C1. A new paginator stands at offset 0. While the responses hold a non-empty list
  under the response key, each step adds the page size 1000 to the offset and the loop
  goes on; the first response with an empty list there ends it. So the offsets
  requested are 0, 1000, 2000, \<dots>, one per response up to and including the first
  empty one. The \<open>next_page\<close> field of a response does not enter \<open>has_more\<close>.
\<close>

theorem C1_pagination_offsets:
  assumes "\<forall>r\<in>set pre. \<exists>x xs. subscript r key = Inr (JArr (x # xs))"
    and "subscript lst key = Inr (JArr [])"
  shows "current_value (MailchimpPaginator key) = 0
    \<and> \<not> finished (MailchimpPaginator key)
    \<and> request_offsets (MailchimpPaginator key) pre
          = (map (\<lambda>i. 1000 * int i) [0..<length pre], Waiting)
    \<and> request_offsets (MailchimpPaginator key) (pre @ lst # later)
          = (map (\<lambda>i. 1000 * int i) [0..<Suc (length pre)], Finished)
    \<and> (\<forall>p resp x xs.
          paginator_response_key p = key \<and> paginator_page_size p = PAGE_SIZE
          \<and> 0 \<le> current_value p \<and> subscript resp key = Inr (JArr (x # xs))
          \<longrightarrow> advance p resp = Inr (p\<lparr>current_value := current_value p + 1000\<rparr>))
    \<and> (\<forall>p resp.
          paginator_response_key p = key \<and> subscript resp key = Inr (JArr [])
          \<longrightarrow> advance p resp = Inr (p\<lparr>finished := True\<rparr>))
    \<and> (\<forall>p v d.
          paginator_response_key p = key \<and> key \<noteq> ''next_page''
          \<longrightarrow> has_more p (JObj (AList.update ''next_page'' v d)) = has_more p (JObj d))"
proof -
  let ?p = "MailchimpPaginator key"
  have k: "paginator_response_key ?p = key" and f: "\<not> finished ?p"
    and s: "paginator_page_size ?p = PAGE_SIZE" and c: "current_value ?p = 0"
    by (simp_all add: MailchimpPaginator_def)
  have pending: "request_offsets ?p pre
      = (map (\<lambda>i. 1000 * int i) [0..<length pre], Waiting)"
    using request_offsets_pending [of pre ?p] assms(1) k f s c by simp
  have run: "request_offsets ?p (pre @ lst # later)
      = (map (\<lambda>i. 1000 * int i) [0..<Suc (length pre)], Finished)"
    using request_offsets_run [of pre ?p lst later] assms k f s c by simp
  have step: "\<forall>p resp x xs.
      paginator_response_key p = key \<and> paginator_page_size p = PAGE_SIZE
      \<and> 0 \<le> current_value p \<and> subscript resp key = Inr (JArr (x # xs))
      \<longrightarrow> advance p resp = Inr (p\<lparr>current_value := current_value p + 1000\<rparr>)"
    using advance_nonempty by blast
  have stop: "\<forall>p resp.
      paginator_response_key p = key \<and> subscript resp key = Inr (JArr [])
      \<longrightarrow> advance p resp = Inr (p\<lparr>finished := True\<rparr>)"
    using advance_empty by blast
  have np: "\<forall>p v d.
      paginator_response_key p = key \<and> key \<noteq> ''next_page''
      \<longrightarrow> has_more p (JObj (AList.update ''next_page'' v d)) = has_more p (JObj d)"
    using has_more_ignores_next_page by blast
  from c f pending run step stop np show ?thesis by blast
qed

theorem C1_pagination_offsets_witness:
  "request_offsets (get_new_paginator CampaignsStream)
     [JObj [(''campaigns'', JArr [JObj [(''id'', JStr ''a'')]]), (''next_page'', JNull)],
      JObj [(''campaigns'', JArr [JObj [(''id'', JStr ''b'')]])],
      JObj [(''campaigns'', JArr [])]]
   = ([0, 1000, 2000], Finished)"
proof -
  let ?a = "JObj [(''campaigns'', JArr [JObj [(''id'', JStr ''a'')]]), (''next_page'', JNull)]"
  let ?b = "JObj [(''campaigns'', JArr [JObj [(''id'', JStr ''b'')]])]"
  let ?c = "JObj [(''campaigns'', JArr [])]"
  have h1: "\<forall>r\<in>set [?a, ?b]. \<exists>x xs. subscript r ''campaigns'' = Inr (JArr (x # xs))"
    by (simp add: subscript_def)
  have h2: "subscript ?c ''campaigns'' = Inr (JArr [])"
    by (simp add: subscript_def)
  note all = C1_pagination_offsets [OF h1 h2, of "[]"]
  note run = all [THEN conjunct2, THEN conjunct2, THEN conjunct2, THEN conjunct1]
  have pages: "[?a, ?b] @ ?c # [] = [?a, ?b, ?c]"
    by simp
  have offsets: "map (\<lambda>i. 1000 * int i) [0..<Suc (length [?a, ?b])] = [0, 1000, 2000]"
    by (simp add: upt_conv_Cons)
  have new: "get_new_paginator CampaignsStream = MailchimpPaginator ''campaigns''"
    by (simp add: get_new_paginator_def)
  show ?thesis
    using run unfolding pages offsets new .
qed

subsection \<open>A response without the record list\<close>

lemma has_more_missing:
  assumes "map_of d (paginator_response_key p) = None"
  shows "has_more p (JObj d) = Inl (KeyError (paginator_response_key p))"
  using assms by (simp add: has_more_def subscript_def)

lemma has_more_no_length:
  assumes "map_of d (paginator_response_key p) = Some v"
    and "v = JNull \<or> (\<exists>b. v = JBool b) \<or> (\<exists>n. v = JNum n)"
  shows "has_more p (JObj d) = Inl TypeError"
  using assms by (auto simp: has_more_def subscript_def len_def)

lemma advance_raises:
  assumes "has_more p body = Inl e"
  shows "advance p body = Inl e"
  using assms by (simp add: advance_def)

lemma advance_finishes_iff:
  assumes "\<not> finished p" and "paginator_page_size p = PAGE_SIZE" and "0 \<le> current_value p"
  shows "(\<exists>p'. advance p body = Inr p' \<and> finished p') \<longleftrightarrow> has_more p body = Inr 0"
proof (cases "has_more p body")
  case (Inl e)
  then show ?thesis by (simp add: advance_def)
next
  case (Inr n)
  then show ?thesis
    using assms by (auto simp: advance_def get_next_def PAGE_SIZE_def Let_def)
qed

text \<open>
  C2 (as amended). A response body without the field named by the response key makes
  \<open>has_more\<close>, and with it the pagination step, raise \<open>KeyError\<close>; a field that is
  null, a boolean or a number makes them raise \<open>TypeError\<close>. The step signals "no more
  pages" exactly when \<open>has_more\<close> returns 0, that is when the field is present and has
  length zero.
\<close>

theorem C2_missing_key_raises:
  assumes "\<not> finished p" and "paginator_page_size p = PAGE_SIZE" and "0 \<le> current_value p"
  shows "(map_of d (paginator_response_key p) = None
            \<longrightarrow> has_more p (JObj d) = Inl (KeyError (paginator_response_key p))
              \<and> advance p (JObj d) = Inl (KeyError (paginator_response_key p)))
    \<and> (map_of d (paginator_response_key p) = Some v
          \<and> (v = JNull \<or> (\<exists>b. v = JBool b) \<or> (\<exists>n. v = JNum n))
            \<longrightarrow> has_more p (JObj d) = Inl TypeError \<and> advance p (JObj d) = Inl TypeError)
    \<and> ((\<exists>p'. advance p body = Inr p' \<and> finished p')
          \<longleftrightarrow> (\<exists>w. subscript body (paginator_response_key p) = Inr w \<and> len w = Inr 0))"
proof -
  have a: "map_of d (paginator_response_key p) = None
      \<longrightarrow> has_more p (JObj d) = Inl (KeyError (paginator_response_key p))
        \<and> advance p (JObj d) = Inl (KeyError (paginator_response_key p))"
    using has_more_missing advance_raises by blast
  have b: "map_of d (paginator_response_key p) = Some v
      \<and> (v = JNull \<or> (\<exists>b. v = JBool b) \<or> (\<exists>n. v = JNum n))
        \<longrightarrow> has_more p (JObj d) = Inl TypeError \<and> advance p (JObj d) = Inl TypeError"
    using has_more_no_length [of d p v] advance_raises [of p "JObj d" TypeError] by blast
  have "has_more p body = Inr 0
      \<longleftrightarrow> (\<exists>w. subscript body (paginator_response_key p) = Inr w \<and> len w = Inr 0)"
    by (auto simp: has_more_def split: sum.splits)
  then have c: "(\<exists>p'. advance p body = Inr p' \<and> finished p')
      \<longleftrightarrow> (\<exists>w. subscript body (paginator_response_key p) = Inr w \<and> len w = Inr 0)"
    using advance_finishes_iff [OF assms, of body] by simp
  from a b c show ?thesis by blast
qed

theorem C2_missing_key_raises_witness:
  "advance (MailchimpPaginator ''campaigns'') (JObj [(''total_items'', JNum 0)])
     = Inl (KeyError ''campaigns'')
   \<and> advance (MailchimpPaginator ''campaigns'') (JObj [(''campaigns'', JNull)])
     = Inl TypeError"
proof -
  let ?p = "MailchimpPaginator ''campaigns''"
  have p: "\<not> finished ?p" "paginator_page_size ?p = PAGE_SIZE" "0 \<le> current_value ?p"
    and k: "paginator_response_key ?p = ''campaigns''"
    by (simp_all add: MailchimpPaginator_def)
  have m: "map_of [(''total_items'', JNum 0)] (paginator_response_key ?p) = None"
    by (simp add: k)
  have n: "map_of [(''campaigns'', JNull)] (paginator_response_key ?p) = Some JNull
      \<and> (JNull = JNull \<or> (\<exists>b. JNull = JBool b) \<or> (\<exists>n. JNull = JNum n))"
    by (simp add: k)
  have "advance ?p (JObj [(''total_items'', JNum 0)]) = Inl (KeyError ''campaigns'')"
    using C2_missing_key_raises [OF p, of "[(''total_items'', JNum 0)]"] m k by simp
  moreover have "advance ?p (JObj [(''campaigns'', JNull)]) = Inl TypeError"
    using C2_missing_key_raises [OF p, of "[(''campaigns'', JNull)]" JNull] n by blast
  ultimately show ?thesis by simp
qed

text \<open>
  C2 (as stated) fails: with the field missing the step raises \<open>KeyError\<close>, where an
  empty list ends the pagination normally.
\<close>

theorem C2_missing_key_counterexample:
  "has_more (MailchimpPaginator ''campaigns'') (JObj [(''total_items'', JNum 0)])
     = Inl (KeyError ''campaigns'')
   \<and> advance (MailchimpPaginator ''campaigns'') (JObj [(''total_items'', JNum 0)])
     = Inl (KeyError ''campaigns'')
   \<and> advance (MailchimpPaginator ''campaigns'')
        (JObj [(''campaigns'', JArr []), (''total_items'', JNum 0)])
     = Inr ((MailchimpPaginator ''campaigns'')\<lparr>finished := True\<rparr>)"
  by (simp add: MailchimpPaginator_def has_more_def advance_def subscript_def len_def)

section \<open>Query parameters\<close>

lemma base_count:
  "map_of (MailchimpStream_get_url_params s ctx tok) ''count'' = Some (PInt 1000)"
  by (simp add: MailchimpStream_get_url_params_def Let_def update_conv' page_size_def PAGE_SIZE_def)

lemma base_offset:
  "map_of (MailchimpStream_get_url_params s ctx tok) ''offset''
     = (case tok of None \<Rightarrow> None | Some n \<Rightarrow> if n \<noteq> 0 then Some (PInt n) else None)"
  by (simp add: MailchimpStream_get_url_params_def Let_def update_conv' split: option.splits)

lemma base_exclude_fields:
  "map_of (MailchimpStream_get_url_params s ctx tok) ''exclude_fields''
     = (if exclude_fields s \<noteq> []
        then Some (PStr (join '','' (map (\<lambda>fname. response_key s @ ''.'' @ fname)
                                        (exclude_fields s))))
        else None)"
  by (simp add: MailchimpStream_get_url_params_def Let_def update_conv' split: option.splits)

lemma base_no_filter:
  "map_of (MailchimpStream_get_url_params s ctx tok) ''since'' = None"
  "map_of (MailchimpStream_get_url_params s ctx tok) ''since_last_changed'' = None"
  by (simp_all add: MailchimpStream_get_url_params_def Let_def update_conv' split: option.splits)

lemma params_keep:
  assumes "k \<noteq> ''since''" and "k \<noteq> ''since_last_changed''"
  shows "map_of (get_url_params g s ctx tok) k
           = map_of (MailchimpStream_get_url_params s ctx tok) k"
  using assms by (cases s) (simp_all add: update_conv')

text \<open>
  C3. The query parameters of every stream, context and token: \<open>count\<close> is the page
  size 1000; \<open>offset\<close> is the token when the token is a non-zero integer and is absent
  when the token is 0 or \<open>None\<close>; \<open>exclude_fields\<close> is the comma-joined list of
  \<open>response_key.field\<close> when the stream excludes fields; and the streams with a
  replication key (the three child streams) carry their filter, \<open>since\<close> or
  \<open>since_last_changed\<close>, equal to the starting timestamp of the context.
\<close>

theorem C3_url_params:
  "map_of (get_url_params g s ctx tok) ''count'' = Some (PInt 1000)
   \<and> map_of (get_url_params g s ctx (Some n)) ''offset''
         = (if n \<noteq> 0 then Some (PInt n) else None)
   \<and> map_of (get_url_params g s ctx None) ''offset'' = None
   \<and> (exclude_fields s \<noteq> [] \<longrightarrow>
         map_of (get_url_params g s ctx tok) ''exclude_fields''
           = Some (PStr (join '','' (map (\<lambda>fname. response_key s @ ''.'' @ fname)
                                        (exclude_fields s)))))
   \<and> (replication_key s \<noteq> None \<longrightarrow>
         (if s = ListsMembersStream
          then map_of (get_url_params g s ctx tok) ''since_last_changed'' = Some (PTime (g ctx))
          else map_of (get_url_params g s ctx tok) ''since'' = Some (PTime (g ctx))))"
proof -
  have count: "map_of (get_url_params g s ctx tok) ''count'' = Some (PInt 1000)"
    by (simp add: params_keep base_count)
  have offset: "map_of (get_url_params g s ctx (Some n)) ''offset''
      = (if n \<noteq> 0 then Some (PInt n) else None)"
    by (simp add: params_keep base_offset)
  have first: "map_of (get_url_params g s ctx None) ''offset'' = None"
    by (simp add: params_keep base_offset)
  have excl: "exclude_fields s \<noteq> [] \<longrightarrow>
      map_of (get_url_params g s ctx tok) ''exclude_fields''
        = Some (PStr (join '','' (map (\<lambda>fname. response_key s @ ''.'' @ fname)
                                     (exclude_fields s))))"
    by (simp add: params_keep base_exclude_fields)
  have filt: "replication_key s \<noteq> None \<longrightarrow>
      (if s = ListsMembersStream
       then map_of (get_url_params g s ctx tok) ''since_last_changed'' = Some (PTime (g ctx))
       else map_of (get_url_params g s ctx tok) ''since'' = Some (PTime (g ctx)))"
    by (cases s) (simp_all add: update_conv')
  from count offset first excl filt show ?thesis by blast
qed

theorem C3_url_params_witness:
  "map_of (get_url_params (\<lambda>c. Some (Aware 1673308800)) ListsMembersStream
            (Some [(''list_id'', JStr ''abc'')]) (Some 1000)) ''exclude_fields''
     = Some (PStr ''members._links,members.merge_fields,members.location'')
   \<and> map_of (get_url_params (\<lambda>c. Some (Aware 1673308800)) ListsMembersStream
            (Some [(''list_id'', JStr ''abc'')]) (Some 1000)) ''since_last_changed''
     = Some (PTime (Some (Aware 1673308800)))
   \<and> map_of (get_url_params (\<lambda>c. Some (Aware 1673308800)) ListsMembersStream
            (Some [(''list_id'', JStr ''abc'')]) (Some 1000)) ''offset''
     = Some (PInt 1000)
   \<and> get_url_params (\<lambda>c. Some (Aware 1673308800)) ListsMembersStream
            (Some [(''list_id'', JStr ''abc'')]) (Some 1000)
     = [(''offset'', PInt 1000),
        (''exclude_fields'', PStr ''members._links,members.merge_fields,members.location''),
        (''count'', PInt 1000),
        (''since_last_changed'', PTime (Some (Aware 1673308800)))]"
proof -
  have e: "exclude_fields ListsMembersStream \<noteq> []"
    and r: "replication_key ListsMembersStream \<noteq> None"
    by simp_all
  note all = C3_url_params [of "\<lambda>c. Some (Aware 1673308800)" ListsMembersStream
      "Some [(''list_id'', JStr ''abc'')]" "Some 1000" 1000]
  have j: "join '','' (map (\<lambda>fname. response_key ListsMembersStream @ ''.'' @ fname)
                        (exclude_fields ListsMembersStream))
      = ''members._links,members.merge_fields,members.location''"
    by simp
  have a: "map_of (get_url_params (\<lambda>c. Some (Aware 1673308800)) ListsMembersStream
            (Some [(''list_id'', JStr ''abc'')]) (Some 1000)) ''exclude_fields''
     = Some (PStr ''members._links,members.merge_fields,members.location'')"
    using all e unfolding j by blast
  have b: "map_of (get_url_params (\<lambda>c. Some (Aware 1673308800)) ListsMembersStream
            (Some [(''list_id'', JStr ''abc'')]) (Some 1000)) ''since_last_changed''
     = Some (PTime (Some (Aware 1673308800)))"
    using all r by simp
  have c: "map_of (get_url_params (\<lambda>c. Some (Aware 1673308800)) ListsMembersStream
            (Some [(''list_id'', JStr ''abc'')]) (Some 1000)) ''offset''
     = Some (PInt 1000)"
    using all by simp
  have d: "get_url_params (\<lambda>c. Some (Aware 1673308800)) ListsMembersStream
            (Some [(''list_id'', JStr ''abc'')]) (Some 1000)
     = [(''offset'', PInt 1000),
        (''exclude_fields'', PStr ''members._links,members.merge_fields,members.location''),
        (''count'', PInt 1000),
        (''since_last_changed'', PTime (Some (Aware 1673308800)))]"
    by (simp add: MailchimpStream_get_url_params_def Let_def page_size_def PAGE_SIZE_def)
  from a b c d show ?thesis by blast
qed

section \<open>Filtering of unsorted records\<close>

lemma filter_record_aware:
  assumes "parse_timestamp isoparse row = Inr (Aware t)" and "g ctx = Some (Aware start)"
  shows "filter_record isoparse g ctx (JObj row)
           = (if start \<le> t then yield (JObj row) else skip)"
  using assms by (simp add: filter_record_def)

lemma filter_record_naive:
  assumes "parse_timestamp isoparse row = Inr (Naive t)" and "g ctx = Some (Aware start)"
  shows "filter_record isoparse g ctx (JObj row) = raise TypeError"
  using assms by (simp add: filter_record_def)

lemma unsubscribes_append:
  "ReportsUnsubscribes_get_records isoparse g ctx (xs @ ys)
     = seq_gen (ReportsUnsubscribes_get_records isoparse g ctx xs)
         (ReportsUnsubscribes_get_records isoparse g ctx ys)"
  by (induction xs) (simp_all add: seq_gen_assoc)

lemma unsubscribes_filter:
  assumes "g ctx = Some (Aware start)"
    and "\<forall>r\<in>set records. \<exists>row t. r = JObj row \<and> parse_timestamp isoparse row = Inr (Aware t)"
  shows "ReportsUnsubscribes_get_records isoparse g ctx records
           = (filter (\<lambda>r. \<exists>row t. r = JObj row \<and> parse_timestamp isoparse row = Inr (Aware t)
                                   \<and> start \<le> t) records, None)"
  using assms(2)
proof (induction records)
  case Nil
  then show ?case by (simp add: skip_def)
next
  case (Cons r records)
  from Cons.prems obtain row t
    where r: "r = JObj row" and t: "parse_timestamp isoparse row = Inr (Aware t)" by auto
  have rest: "ReportsUnsubscribes_get_records isoparse g ctx records
      = (filter (\<lambda>r. \<exists>row t. r = JObj row \<and> parse_timestamp isoparse row = Inr (Aware t)
                              \<and> start \<le> t) records, None)"
    using Cons by simp
  show ?case
  proof (cases "start \<le> t")
    case True
    then show ?thesis
      using r t rest filter_record_aware [of isoparse row t g ctx start] assms(1)
      by (simp add: seq_gen_yield)
  next
    case False
    then show ?thesis
      using r t rest filter_record_aware [of isoparse row t g ctx start] assms(1)
      by simp
  qed
qed

text \<open>
  C5 (as amended). For \<open>reports_unsubscribes\<close>, whose records come in no guaranteed
  order, with an aware starting timestamp \<open>start\<close>: when every fetched record carries
  a timestamp with an offset (one that \<open>isoparse\<close> reads as an aware \<open>datetime\<close>),
  \<open>get_records\<close> returns normally and emits, in order, exactly the records whose
  timestamp is at or after \<open>start\<close>; a record after them whose timestamp has no offset
  (a naive \<open>datetime\<close>) makes \<open>get_records\<close> raise \<open>TypeError\<close> at that record.
\<close>

theorem C5_unsorted_filter:
  assumes "g ctx = Some (Aware start)"
    and "\<forall>r\<in>set records. \<exists>row t. r = JObj row \<and> parse_timestamp isoparse row = Inr (Aware t)"
  shows "ReportsUnsubscribes_get_records isoparse g ctx records
           = (filter (\<lambda>r. \<exists>row t. r = JObj row \<and> parse_timestamp isoparse row = Inr (Aware t)
                                   \<and> start \<le> t) records, None)
    \<and> (\<forall>row t. JObj row \<in> set records \<and> parse_timestamp isoparse row = Inr (Aware t) \<longrightarrow>
          (JObj row \<in> set (fst (ReportsUnsubscribes_get_records isoparse g ctx records))
             \<longleftrightarrow> start \<le> t))
    \<and> (\<forall>row t later. parse_timestamp isoparse row = Inr (Naive t) \<longrightarrow>
          ReportsUnsubscribes_get_records isoparse g ctx (records @ JObj row # later)
            = (fst (ReportsUnsubscribes_get_records isoparse g ctx records), Some TypeError))"
proof -
  have eq: "ReportsUnsubscribes_get_records isoparse g ctx records
      = (filter (\<lambda>r. \<exists>row t. r = JObj row \<and> parse_timestamp isoparse row = Inr (Aware t)
                              \<and> start \<le> t) records, None)"
    using assms by (rule unsubscribes_filter)
  have mem: "\<forall>row t. JObj row \<in> set records \<and> parse_timestamp isoparse row = Inr (Aware t) \<longrightarrow>
      (JObj row \<in> set (fst (ReportsUnsubscribes_get_records isoparse g ctx records))
         \<longleftrightarrow> start \<le> t)"
    unfolding eq by auto
  have naive: "\<forall>row t later. parse_timestamp isoparse row = Inr (Naive t) \<longrightarrow>
      ReportsUnsubscribes_get_records isoparse g ctx (records @ JObj row # later)
        = (fst (ReportsUnsubscribes_get_records isoparse g ctx records), Some TypeError)"
  proof (intro allI impI)
    fix row t later
    assume n: "parse_timestamp isoparse row = Inr (Naive t)"
    have "ReportsUnsubscribes_get_records isoparse g ctx (JObj row # later) = raise TypeError"
      using filter_record_naive [of isoparse row t g ctx start] n assms(1)
      by (simp add: seq_gen_raise)
    then show "ReportsUnsubscribes_get_records isoparse g ctx (records @ JObj row # later)
        = (fst (ReportsUnsubscribes_get_records isoparse g ctx records), Some TypeError)"
      unfolding unsubscribes_append eq by (simp add: raise_def seq_gen_returned)
  qed
  from eq mem naive show ?thesis by blast
qed

text \<open>
  The example of C5 with timestamps that carry an offset: with the starting value
  2023-01-10T00:00:00Z, the record of 9 January is dropped and the record of 11 January
  is emitted.
\<close>

theorem C5_unsorted_filter_witness:
  "ReportsUnsubscribes_get_records isoparse_sample (\<lambda>c. Some (Aware 1673308800))
     (Some [(''campaign_id'', JStr ''abc'')])
     [JObj [(''email_id'', JStr ''e1''), (''timestamp'', JStr ''2023-01-09T00:00:00+00:00'')],
      JObj [(''email_id'', JStr ''e2''), (''timestamp'', JStr ''2023-01-11T00:00:00+00:00'')]]
   = ([JObj [(''email_id'', JStr ''e2''), (''timestamp'', JStr ''2023-01-11T00:00:00+00:00'')]],
      None)"
proof -
  let ?r1 = "[(''email_id'', JStr ''e1''), (''timestamp'', JStr ''2023-01-09T00:00:00+00:00'')]"
  let ?r2 = "[(''email_id'', JStr ''e2''), (''timestamp'', JStr ''2023-01-11T00:00:00+00:00'')]"
  have t1: "parse_timestamp isoparse_sample ?r1 = Inr (Aware 1673222400)"
    and t2: "parse_timestamp isoparse_sample ?r2 = Inr (Aware 1673395200)"
    by (simp_all add: parse_timestamp_def isoparse_sample_def)
  have h2: "\<forall>r\<in>set [JObj ?r1, JObj ?r2].
      \<exists>row t. r = JObj row \<and> parse_timestamp isoparse_sample row = Inr (Aware t)"
    using t1 t2 by simp
  have keep: "filter (\<lambda>r. \<exists>row t. r = JObj row
                               \<and> parse_timestamp isoparse_sample row = Inr (Aware t)
                               \<and> 1673308800 \<le> t) [JObj ?r1, JObj ?r2] = [JObj ?r2]"
    using t1 t2 by simp
  show ?thesis
    using C5_unsorted_filter [of "\<lambda>c. Some (Aware 1673308800)"
        "Some [(''campaign_id'', JStr ''abc'')]"
        1673308800 "[JObj ?r1, JObj ?r2]" isoparse_sample, OF refl h2, THEN conjunct1]
    unfolding keep .
qed

text \<open>
  C5 (as stated) fails at its own example: with the starting value 2023-01-10T00:00:00Z
  and the two records with the timestamps \<open>2023-01-09\<close> and \<open>2023-01-11\<close>, the
  comparison for the first record raises \<open>TypeError\<close> (a naive \<open>datetime\<close> against an
  aware one), so the record of 2023-01-11 is not emitted; nor is it when it is the
  only record.
\<close>

theorem C5_unsorted_filter_counterexample:
  "ReportsUnsubscribes_get_records isoparse_sample (\<lambda>c. Some (Aware 1673308800))
     (Some [(''campaign_id'', JStr ''abc'')])
     [JObj [(''email_id'', JStr ''e1''), (''timestamp'', JStr ''2023-01-09'')],
      JObj [(''email_id'', JStr ''e2''), (''timestamp'', JStr ''2023-01-11'')]]
   = ([], Some TypeError)
   \<and> ReportsUnsubscribes_get_records isoparse_sample (\<lambda>c. Some (Aware 1673308800))
     (Some [(''campaign_id'', JStr ''abc'')])
     [JObj [(''email_id'', JStr ''e2''), (''timestamp'', JStr ''2023-01-11'')]]
   = ([], Some TypeError)"
  by (simp add: filter_record_def parse_timestamp_def isoparse_sample_def seq_gen_def
      raise_def)

text \<open>
  C8 fails for \<open>reports_unsubscribes\<close>: the record emitted is the raw one, with its
  empty string, while \<open>post_process\<close> of it has null there.
\<close>

theorem C8_unsubscribes_emits_raw_record:
  "ReportsUnsubscribes_get_records isoparse_sample (\<lambda>c. Some (Aware 1673308800))
     (Some [(''campaign_id'', JStr ''abc'')])
     [JObj [(''email_id'', JStr ''e2''), (''reason'', JStr ''''),
            (''timestamp'', JStr ''2023-01-11T00:00:00+00:00'')]]
   = ([JObj [(''email_id'', JStr ''e2''), (''reason'', JStr ''''),
             (''timestamp'', JStr ''2023-01-11T00:00:00+00:00'')]], None)
   \<and> post_process [(''email_id'', JStr ''e2''), (''reason'', JStr ''''),
                    (''timestamp'', JStr ''2023-01-11T00:00:00+00:00'')]
     = [(''email_id'', JStr ''e2''), (''reason'', JNull),
        (''timestamp'', JStr ''2023-01-11T00:00:00+00:00'')]"
  by (simp add: filter_record_def parse_timestamp_def isoparse_sample_def post_process_def
      seq_gen_yield skip_def)

section \<open>One-to-many expansion\<close>

lemma expand_objects:
  "expand parent (map JObj ds) = (map (\<lambda>d. JObj (merge parent d)) ds, None)"
  by (induction ds) (simp_all add: skip_def seq_gen_yield)

lemma expand_record_objects:
  assumes "map_of row ''activity'' = Some (JArr (map JObj ds))"
  shows "expand_record (JObj row)
           = (map (\<lambda>d. JObj (merge (AList.delete ''activity'' (post_process row)) d)) ds, None)"
  using assms
  by (simp add: expand_record_def pop_def post_process_lookup iterate_def expand_objects)

lemma expand_record_missing:
  assumes "map_of row ''activity'' = None"
  shows "expand_record (JObj row) = raise (KeyError ''activity'')"
  using assms by (simp add: expand_record_def pop_def post_process_lookup)

lemma get_records_append:
  "ReportsEmailActivity_get_records (xs @ ys)
     = seq_gen (ReportsEmailActivity_get_records xs) (ReportsEmailActivity_get_records ys)"
  by (induction xs) (simp_all add: seq_gen_assoc)

lemma merge_lookup:
  "map_of (merge a b) = map_of a ++ map_of (rev b)"
  unfolding merge_def
proof (induction b arbitrary: a)
  case Nil
  then show ?case by simp
next
  case (Cons kv b)
  obtain k v where kv: "kv = (k, v)" by (cases kv)
  have "map_of (fold (\<lambda>(k, v). AList.update k v) b (AList.update k v a))
      = map_of (AList.update k v a) ++ map_of (rev b)"
    by (rule Cons.IH)
  also have "\<dots> = map_of a ++ map_of (rev b @ [(k, v)])"
    by (simp add: update_conv' map_add_upd_left fun_eq_iff map_add_def split: option.splits)
  finally show ?case by (simp add: kv)
qed

lemma map_of_rev_distinct:
  assumes "distinct (map fst b)"
  shows "map_of (rev b) = map_of b"
  using assms
proof (induction b)
  case Nil
  then show ?case by simp
next
  case (Cons kv b)
  obtain k v where kv: "kv = (k, v)" by (cases kv)
  have "k \<notin> fst ` set b" using Cons.prems kv by simp
  then have "map_of b k = None" by (simp add: map_of_eq_None_iff)
  then show ?case
    using Cons kv by (auto simp: fun_eq_iff map_add_def split: option.splits)
qed

lemma merge_right_biased:
  assumes "distinct (map fst b)"
  shows "map_of (merge a b) k = (case map_of b k of Some v \<Rightarrow> Some v | None \<Rightarrow> map_of a k)"
  using assms by (simp add: merge_lookup map_of_rev_distinct map_add_def)

text \<open>
  C6. A \<open>reports_email_activity\<close> record whose \<open>activity\<close> field is a list of \<open>n\<close>
  activity objects is expanded into exactly \<open>n\<close> records, in the order of the list:
  each is the record as \<open>get_records\<close> holds it at that point (null-coerced by
  \<open>post_process\<close>, which changes nothing in a record without empty strings), without
  its \<open>activity\<close> field, merged with one item.
\<close>

theorem C6_expansion:
  assumes "map_of row ''activity'' = Some (JArr (map JObj ds))"
  shows "ReportsEmailActivity_get_records [JObj row]
           = (map (\<lambda>d. JObj (merge (AList.delete ''activity'' (post_process row)) d)) ds, None)
    \<and> length (fst (ReportsEmailActivity_get_records [JObj row])) = length ds
    \<and> (post_process row = row \<longrightarrow>
          fst (ReportsEmailActivity_get_records [JObj row])
            = map (\<lambda>d. JObj (merge (AList.delete ''activity'' row) d)) ds)"
proof -
  have "ReportsEmailActivity_get_records [JObj row] = expand_record (JObj row)"
    by simp
  then have eq: "ReportsEmailActivity_get_records [JObj row]
      = (map (\<lambda>d. JObj (merge (AList.delete ''activity'' (post_process row)) d)) ds, None)"
    using expand_record_objects [OF assms] by simp
  show ?thesis unfolding eq by simp
qed

theorem C6_expansion_witness:
  "ReportsEmailActivity_get_records
     [JObj [(''campaign_id'', JStr ''x''),
            (''activity'', JArr [JObj [(''action'', JStr ''open'')],
                                 JObj [(''action'', JStr ''click'')]])]]
   = ([JObj [(''campaign_id'', JStr ''x''), (''action'', JStr ''open'')],
       JObj [(''campaign_id'', JStr ''x''), (''action'', JStr ''click'')]], None)"
proof -
  let ?row = "[(''campaign_id'', JStr ''x''),
               (''activity'', JArr [JObj [(''action'', JStr ''open'')],
                                    JObj [(''action'', JStr ''click'')]])]"
  let ?ds = "[[(''action'', JStr ''open'')], [(''action'', JStr ''click'')]]"
  have h: "map_of ?row ''activity'' = Some (JArr (map JObj ?ds))"
    by simp
  have out: "map (\<lambda>d. JObj (merge (AList.delete ''activity'' (post_process ?row)) d)) ?ds
      = [JObj [(''campaign_id'', JStr ''x''), (''action'', JStr ''open'')],
         JObj [(''campaign_id'', JStr ''x''), (''action'', JStr ''click'')]]"
    by (simp add: post_process_def merge_def AList.delete_eq)
  show ?thesis
    using C6_expansion [OF h, THEN conjunct1] unfolding out .
qed

text \<open>
  C9. A \<open>reports_email_activity\<close> record without an \<open>activity\<close> field makes
  \<open>get_records\<close> raise \<open>KeyError\<close> at that record: what the records before it gave has
  been emitted, and nothing is emitted for it or for any record after it.
\<close>

theorem C9_missing_activity_raises:
  assumes "map_of row ''activity'' = None"
    and "snd (ReportsEmailActivity_get_records before) = None"
  shows "ReportsEmailActivity_get_records (before @ JObj row # after)
           = (fst (ReportsEmailActivity_get_records before), Some (KeyError ''activity''))"
proof -
  have one: "ReportsEmailActivity_get_records (JObj row # after) = raise (KeyError ''activity'')"
    using expand_record_missing [OF assms(1)] by (simp add: seq_gen_raise)
  obtain out where b: "ReportsEmailActivity_get_records before = (out, None)"
    using assms(2) by (cases "ReportsEmailActivity_get_records before") simp
  show ?thesis
    unfolding get_records_append one b by (simp add: raise_def seq_gen_returned)
qed

theorem C9_missing_activity_raises_witness:
  "ReportsEmailActivity_get_records
     [JObj [(''campaign_id'', JStr ''x''),
            (''activity'', JArr [JObj [(''action'', JStr ''open'')]])],
      JObj [(''campaign_id'', JStr ''y''), (''email_id'', JStr ''e1'')],
      JObj [(''campaign_id'', JStr ''z''),
            (''activity'', JArr [JObj [(''action'', JStr ''click'')]])]]
   = ([JObj [(''campaign_id'', JStr ''x''), (''action'', JStr ''open'')]],
      Some (KeyError ''activity''))"
proof -
  let ?a = "JObj [(''campaign_id'', JStr ''x''),
                  (''activity'', JArr [JObj [(''action'', JStr ''open'')]])]"
  let ?row = "[(''campaign_id'', JStr ''y''), (''email_id'', JStr ''e1'')]"
  let ?c = "JObj [(''campaign_id'', JStr ''z''),
                  (''activity'', JArr [JObj [(''action'', JStr ''click'')]])]"
  have h1: "map_of ?row ''activity'' = None"
    by simp
  have b: "ReportsEmailActivity_get_records [?a]
      = ([JObj [(''campaign_id'', JStr ''x''), (''action'', JStr ''open'')]], None)"
    by (simp add: expand_record_def pop_def post_process_def iterate_def merge_def
        AList.delete_eq seq_gen_yield seq_gen_returned skip_def)
  have h2: "snd (ReportsEmailActivity_get_records [?a]) = None"
    unfolding b by simp
  have l: "[?a] @ JObj ?row # [?c] = [?a, JObj ?row, ?c]"
    by simp
  show ?thesis
    using C9_missing_activity_raises [OF h1 h2, of "[?c]"] unfolding l b by simp
qed

text \<open>
  C10. In the expansion the merge is biased to the activity item: a field of the item
  has the item's value in the output record, whether or not the rest of the parent
  record has a field of that name; the parent's value stays only where the item has no
  such field. (The item is a decoded object, so its keys are distinct.)
\<close>

theorem C10_item_overrides_parent:
  assumes "map_of row ''activity'' = Some (JArr (map JObj ds))"
    and "d \<in> set ds" and "distinct (map fst d)"
  shows "JObj (merge (AList.delete ''activity'' (post_process row)) d)
           \<in> set (fst (ReportsEmailActivity_get_records [JObj row]))
    \<and> map_of (merge (AList.delete ''activity'' (post_process row)) d) k
        = (case map_of d k of
             Some v \<Rightarrow> Some v
           | None \<Rightarrow> map_of (AList.delete ''activity'' (post_process row)) k)"
proof -
  have "ReportsEmailActivity_get_records [JObj row] = expand_record (JObj row)"
    by simp
  then have "fst (ReportsEmailActivity_get_records [JObj row])
      = map (\<lambda>d. JObj (merge (AList.delete ''activity'' (post_process row)) d)) ds"
    using expand_record_objects [OF assms(1)] by simp
  then have "JObj (merge (AList.delete ''activity'' (post_process row)) d)
      \<in> set (fst (ReportsEmailActivity_get_records [JObj row]))"
    using assms(2) by simp
  then show ?thesis
    using merge_right_biased [OF assms(3)] by simp
qed

theorem C10_item_overrides_parent_witness:
  "ReportsEmailActivity_get_records
     [JObj [(''campaign_id'', JStr ''x''), (''timestamp'', JStr ''parent''),
            (''activity'', JArr [JObj [(''action'', JStr ''open''),
                                       (''timestamp'', JStr ''item'')]])]]
   = ([JObj [(''campaign_id'', JStr ''x''), (''timestamp'', JStr ''item''),
             (''action'', JStr ''open'')]], None)
   \<and> map_of (merge (AList.delete ''activity'' (post_process
          [(''campaign_id'', JStr ''x''), (''timestamp'', JStr ''parent''),
           (''activity'', JArr [JObj [(''action'', JStr ''open''),
                                      (''timestamp'', JStr ''item'')]])]))
          [(''action'', JStr ''open''), (''timestamp'', JStr ''item'')]) ''timestamp''
     = Some (JStr ''item'')"
proof -
  let ?d = "[(''action'', JStr ''open''), (''timestamp'', JStr ''item'')]"
  let ?row = "[(''campaign_id'', JStr ''x''), (''timestamp'', JStr ''parent''),
               (''activity'', JArr [JObj ?d])]"
  have h1: "map_of ?row ''activity'' = Some (JArr (map JObj [?d]))"
    by simp
  have h2: "?d \<in> set [?d]" and h3: "distinct (map fst ?d)"
    by simp_all
  have run: "ReportsEmailActivity_get_records [JObj ?row]
      = ([JObj [(''campaign_id'', JStr ''x''), (''timestamp'', JStr ''item''),
                (''action'', JStr ''open'')]], None)"
    by (simp add: expand_record_def pop_def post_process_def iterate_def merge_def
        AList.delete_eq seq_gen_yield seq_gen_returned skip_def)
  have "map_of (merge (AList.delete ''activity'' (post_process ?row)) ?d) ''timestamp''
      = Some (JStr ''item'')"
    using C10_item_overrides_parent [OF h1 h2 h3, of "''timestamp''"] by simp
  with run show ?thesis by blast
qed

section \<open>Child contexts\<close>

lemma email_activity_path:
  "fill_placeholders (path ReportsEmailActivity) [(''campaign_id'', JStr s)]
     = Some (''/reports/'' @ s @ ''/email-activity'')"
  by simp

lemma lists_members_path:
  "fill_placeholders (path ListsMembersStream) [(''list_id'', JStr s)]
     = Some (''/lists/'' @ s @ ''/members'')"
  by simp

text \<open>
  C7. From a parent record with an \<open>id\<close> field, the child context is the dict with
  the one declared key, bound to that id, whatever else the record holds:
  \<open>campaign_id\<close> for a campaigns record, \<open>list_id\<close> for a lists record. The campaigns
  record \<open>{"id": "abc"}\<close> gives \<open>{"campaign_id": "abc"}\<close>, with which the child path
  \<open>/reports/{campaign_id}/email-activity\<close> becomes \<open>/reports/abc/email-activity\<close>.
\<close>

theorem C7_child_context:
  assumes "map_of record ''id'' = Some v"
  shows "CampaignsStream_get_child_context record ctx = Inr [(''campaign_id'', v)]
    \<and> ListsStream_get_child_context record ctx = Inr [(''list_id'', v)]
    \<and> CampaignsStream_get_child_context [(''id'', JStr ''abc'')] ctx
          = Inr [(''campaign_id'', JStr ''abc'')]
    \<and> fill_placeholders (path ReportsEmailActivity) [(''campaign_id'', JStr ''abc'')]
          = Some ''/reports/abc/email-activity''
    \<and> fill_placeholders (path ListsMembersStream) [(''list_id'', JStr ''abc'')]
          = Some ''/lists/abc/members''"
proof -
  have a: "CampaignsStream_get_child_context record ctx = Inr [(''campaign_id'', v)]"
    using assms by (simp add: CampaignsStream_get_child_context_def)
  have l: "ListsStream_get_child_context record ctx = Inr [(''list_id'', v)]"
    using assms by (simp add: ListsStream_get_child_context_def)
  have b: "CampaignsStream_get_child_context [(''id'', JStr ''abc'')] ctx
      = Inr [(''campaign_id'', JStr ''abc'')]"
    by (simp add: CampaignsStream_get_child_context_def)
  have c: "fill_placeholders (path ReportsEmailActivity) [(''campaign_id'', JStr ''abc'')]
      = Some ''/reports/abc/email-activity''"
    using email_activity_path [of "''abc''"] by simp
  have d: "fill_placeholders (path ListsMembersStream) [(''list_id'', JStr ''abc'')]
      = Some ''/lists/abc/members''"
    using lists_members_path [of "''abc''"] by simp
  from a l b c d show ?thesis by blast
qed

theorem C7_child_context_witness:
  "CampaignsStream_get_child_context
     [(''id'', JStr ''abc''), (''web_id'', JNum 7), (''status'', JStr ''sent'')] None
   = Inr [(''campaign_id'', JStr ''abc'')]
   \<and> ListsStream_get_child_context
     [(''id'', JStr ''abc''), (''web_id'', JNum 7), (''status'', JStr ''sent'')] None
   = Inr [(''list_id'', JStr ''abc'')]"
proof -
  have h: "map_of [(''id'', JStr ''abc''), (''web_id'', JNum 7), (''status'', JStr ''sent'')]
      ''id'' = Some (JStr ''abc'')"
    by simp
  note all = C7_child_context [OF h, of None]
  from all [THEN conjunct1] all [THEN conjunct2, THEN conjunct1] show ?thesis
    by (rule conjI)
qed

end
